theory Spec2Isabelle
  imports Complex_Main "HOL-Library.DAList"
begin

section \<open>Data model\<close>

subsection \<open>Python values\<close>

text \<open>
  A Python \<open>str\<close> is a sequence of Unicode code points; \<open>str\<close> turns an ASCII literal
  into one. The values of a message dictionary come from \<open>json.load\<close> and from the
  handler itself, so they are JSON scalars: text, \<open>None\<close> or a number.
\<close>

type_synonym pystr = "nat list"

definition str :: "string \<Rightarrow> pystr" where
  "str s = map of_char s"

datatype pyval = Str pystr | NoneVal | Num int

text \<open>
  A message is a \<open>dict\<close>: its keys are unique and \<open>items()\<close> walks them in insertion
  order, which is what an association list with distinct keys is. The three
  dictionaries the handler builds have the keys \<open>role\<close> and \<open>content\<close>.
\<close>

type_synonym message = "(pystr, pyval) alist"

lift_definition user_message :: "pystr \<Rightarrow> message"
  is "\<lambda>user_input. [(str ''role'', Str (str ''user'')), (str ''content'', Str user_input)]"
  by (simp add: str_def)

lift_definition assistant_message :: "pystr \<Rightarrow> message"
  is "\<lambda>answer. [(str ''role'', Str (str ''assistant'')), (str ''content'', Str answer)]"
  by (simp add: str_def)

lift_definition system_message :: "pystr \<Rightarrow> message"
  is "\<lambda>system_prompt. [(str ''role'', Str (str ''system'')), (str ''content'', Str system_prompt)]"
  by (simp add: str_def)

text \<open>
  \<open>self.encoding.encode(value)\<close>: the tokenizer is a capability handed to the handler.
  It returns the token ids of a text, or raises (\<open>None\<close> here), as tiktoken does on a
  value that is not text and on text that spells a special token.
\<close>

type_synonym tokenizer = "pyval \<Rightarrow> nat list option"

subsection \<open>Exceptions\<close>

text \<open>
  The exception classes the handler and the rate limiter meet: the classes of
  \<open>openai.error\<close> (each a direct subclass of \<open>OpenAIError\<close>), any other exception
  of the remote call, and the three built-in errors the rate limiter can raise, the
  last of them when its recursion runs out of stack.
\<close>

datatype exn_class =
    APIError | Timeout | TryAgain | ServiceUnavailableError | RateLimitError
  | AuthenticationError | InvalidRequestError | APIConnectionError | PermissionError
  | OtherException | ZeroDivisionError | ValueError | RecursionError

definition is_OpenAIError :: "exn_class \<Rightarrow> bool" where
  "is_OpenAIError c =
     (c \<noteq> OtherException \<and> c \<noteq> ZeroDivisionError \<and> c \<noteq> ValueError \<and> c \<noteq> RecursionError)"

text \<open>
  What a call does: it returns a value, raises, or is still waiting when the clock
  readings that drive the model are used up.
\<close>

datatype 'a outcome = Returned 'a | Raised exn_class | Blocked

subsection \<open>The effect trace\<close>

text \<open>
  Every operation returns, next to the new state, the effects it performed, in order:
  a sleep of the rate limiter and its length, a refill and the token count after it, a
  token taken and the count left (the number \<open>acquire\<close> logs), an append to the
  session, an eviction from it, an invocation of the remote service with the messages
  sent, a wait of the retry decorator between two invocations, and a write of the
  session file. Logging calls are not part of the trace.
\<close>

datatype event =
    Slept real
  | Refilled int
  | TokenAcquired int
  | Appended message
  | Evicted message
  | RemoteCall "message list"
  | Backoff real
  | Saved "message list"

section \<open>Token counting (\<open>ChatGPTHandler.count_tokens\<close>)\<close>

definition tokens_per_message :: int where
  "tokens_per_message = 4"

definition tokens_per_name :: int where
  "tokens_per_name = - 1"

text \<open>
  The inner loop over \<open>message.items()\<close> and the outer loop over \<open>messages\<close>, with
  \<open>num_tokens\<close> as the accumulator. \<open>None\<close> is the exception that \<open>encode\<close> raised,
  which leaves both loops at once.
\<close>

fun count_items :: "tokenizer \<Rightarrow> (pystr \<times> pyval) list \<Rightarrow> int \<Rightarrow> int option" where
  "count_items enc [] num_tokens = Some num_tokens"
| "count_items enc ((key, val) # items) num_tokens =
     (case enc val of
        None \<Rightarrow> None
      | Some ids \<Rightarrow>
          count_items enc items
            (num_tokens + int (length ids) + (if key = str ''name'' then tokens_per_name else 0)))"

fun count_messages :: "tokenizer \<Rightarrow> message list \<Rightarrow> int \<Rightarrow> int option" where
  "count_messages enc [] num_tokens = Some num_tokens"
| "count_messages enc (m # ms) num_tokens =
     (case count_items enc (DAList.impl_of m) (num_tokens + tokens_per_message) of
        None \<Rightarrow> None
      | Some n \<Rightarrow> count_messages enc ms n)"

text \<open>The \<open>except Exception\<close> branch returns 0; otherwise 2 is added after the loops.\<close>

definition count_tokens :: "tokenizer \<Rightarrow> message list \<Rightarrow> int" where
  "count_tokens enc msgs =
     (case count_messages enc msgs 0 of None \<Rightarrow> 0 | Some num_tokens \<Rightarrow> num_tokens + 2)"

section \<open>The rate limiter (\<open>rate_limiter.py\<close>)\<close>

text \<open>
  Time stamps and the period are Python floats; the model computes with real numbers,
  so a trace computed here is the program's where its float operations are exact. The
  token count is an integer, and the bounds proved on it use of the refill amount only
  that its integer part is at least 1 when the amount is.
\<close>

record rate_limiter =
  max_calls :: int
  period :: real
  tokens :: int
  last_refill :: real

text \<open>
  \<open>RateLimiter.__init__\<close>, with the reading of \<open>time.time()\<close> as third argument. The
  result type has room for an exception; the constructor has no check and raises none.
\<close>

definition RateLimiter :: "int \<Rightarrow> real \<Rightarrow> real \<Rightarrow> exn_class + rate_limiter" where
  "RateLimiter max_calls' period' now =
     Inr \<lparr>max_calls = max_calls', period = period', tokens = max_calls', last_refill = now\<rparr>"

text \<open>Python's \<open>int(x)\<close> on a float truncates towards zero.\<close>

definition py_int :: "real \<Rightarrow> int" where
  "py_int x = (if 0 \<le> x then \<lfloor>x\<rfloor> else \<lceil>x\<rceil>)"

text \<open>
  The refill at the head of the locked section of \<open>acquire\<close>, for a period that is
  not 0: the amount the elapsed time has earned and, when it is at least 1, the new
  token count and time stamp.
\<close>

definition refill_amount :: "real \<Rightarrow> rate_limiter \<Rightarrow> real" where
  "refill_amount current_time rl =
     (let elapsed = current_time - last_refill rl
      in (elapsed / period rl) * real_of_int (max_calls rl))"

definition refill :: "real \<Rightarrow> rate_limiter \<Rightarrow> rate_limiter" where
  "refill current_time rl =
     (if refill_amount current_time rl \<ge> 1
      then rl\<lparr>tokens := min (max_calls rl) (tokens rl + py_int (refill_amount current_time rl)),
              last_refill := current_time\<rparr>
      else rl)"

text \<open>
  What one call of \<open>acquire\<close> leaves behind: its effects, how it ended, the bucket,
  the number of \<open>acquire\<close> frames on the call stack at the deepest point, and the clock
  readings it did not use.
\<close>

record acquire_result =
  effects :: "event list"
  result :: "unit outcome"
  bucket :: rate_limiter
  frames :: nat
  clock_rest :: "real list"

text \<open>
  \<open>RateLimiter.acquire\<close>. The first argument is the number of \<open>acquire\<close> frames the
  interpreter has room for where the call is made (its recursion limit less the stack
  in use): a call that finds no room raises \<open>RecursionError\<close> before it runs. The
  second argument lists the values that the successive calls of \<open>time.time()\<close>
  return, one for each run of the locked section; when none is left the call is still
  waiting (\<open>Blocked\<close>). Both divisions raise on a zero divisor, \<open>time.sleep\<close>
  raises on a negative length, and the retry is the call \<open>self.acquire()\<close> from
  inside \<open>acquire\<close>, one frame deeper.
\<close>

fun acquire :: "nat \<Rightarrow> real list \<Rightarrow> rate_limiter \<Rightarrow> acquire_result" where
  "acquire 0 clock rl =
     \<lparr>effects = [], result = Raised RecursionError, bucket = rl, frames = 0,
      clock_rest = clock\<rparr>"
| "acquire (Suc room) [] rl =
     \<lparr>effects = [], result = Blocked, bucket = rl, frames = 1, clock_rest = []\<rparr>"
| "acquire (Suc room) (current_time # clock) rl =
     (if period rl = 0
      then \<lparr>effects = [], result = Raised ZeroDivisionError, bucket = rl, frames = 1,
             clock_rest = clock\<rparr>
      else
        let rl1 = refill current_time rl;
            evs1 = (if refill_amount current_time rl \<ge> 1 then [Refilled (tokens rl1)] else [])
        in
          if tokens rl1 \<ge> 1
          then \<lparr>effects = evs1 @ [TokenAcquired (tokens rl1 - 1)], result = Returned (),
                 bucket = rl1\<lparr>tokens := tokens rl1 - 1\<rparr>, frames = 1, clock_rest = clock\<rparr>
          else if max_calls rl1 = 0
          then \<lparr>effects = evs1, result = Raised ZeroDivisionError, bucket = rl1, frames = 1,
                 clock_rest = clock\<rparr>
          else
            let wait_time = period rl1 / real_of_int (max_calls rl1) in
              if wait_time < 0
              then \<lparr>effects = evs1, result = Raised ValueError, bucket = rl1, frames = 1,
                     clock_rest = clock\<rparr>
              else
                let r = acquire room clock rl1
                in r\<lparr>effects := evs1 @ Slept wait_time # effects r, frames := Suc (frames r)\<rparr>)"

text \<open>
  \<open>n\<close> calls of \<open>acquire\<close> one after the other on the same limiter, each made with
  the same room on the stack and going on with the clock readings the one before left.
\<close>

fun acquire_calls ::
  "nat \<Rightarrow> nat \<Rightarrow> real list \<Rightarrow> rate_limiter \<Rightarrow> event list \<times> rate_limiter"
where
  "acquire_calls 0 room clock rl = ([], rl)"
| "acquire_calls (Suc n) room clock rl =
     (let r = acquire room clock rl
      in case acquire_calls n room (clock_rest r) (bucket r) of
           (evs, rl') \<Rightarrow> (effects r @ evs, rl'))"

section \<open>The handler (\<open>chatgpt_handler.py\<close>)\<close>

record ChatGPTHandler =
  messages :: "message list"
  session_changed :: bool
  max_context_tokens :: int
  max_response_tokens :: int
  rate_limiter :: rate_limiter
  session_file :: "message list option"

text \<open>
  \<open>manage_token_limit\<close>: the \<open>while True\<close> loop. The budget test comes first; then
  \<open>len(messages) > 1\<close> guards \<open>pop(1)\<close>, which takes the second element out.
\<close>

function manage_token_limit :: "tokenizer \<Rightarrow> ChatGPTHandler \<Rightarrow> event list \<times> ChatGPTHandler" where
  "manage_token_limit enc h =
     (if count_tokens enc (messages h) + max_response_tokens h \<le> max_context_tokens h
      then ([], h)
      else (case messages h of
              first # removed_message # rest \<Rightarrow>
                (case manage_token_limit enc (h\<lparr>messages := first # rest, session_changed := True\<rparr>) of
                   (evs, h') \<Rightarrow> (Evicted removed_message # evs, h'))
            | _ \<Rightarrow> ([], h)))"
  by pat_completeness auto
termination
  by (relation "measure (\<lambda>(enc, h). length (messages h))") auto

declare manage_token_limit.simps [simp del]

subsection \<open>Saving the session\<close>

text \<open>
  \<open>save_session\<close>: nothing to do when the session has not changed; a write that fails
  is logged and swallowed, and leaves \<open>session_changed\<close> set. Whether the write
  succeeds is the first argument.
\<close>

definition save_session :: "bool \<Rightarrow> ChatGPTHandler \<Rightarrow> event list \<times> ChatGPTHandler" where
  "save_session disk_ok h =
     (if \<not> session_changed h then ([], h)
      else if disk_ok
      then ([Saved (messages h)], h\<lparr>session_changed := False, session_file := Some (messages h)\<rparr>)
      else ([], h))"

subsection \<open>The remote call and its retries\<close>

text \<open>
  A response of the remote service is read only through \<open>response['choices']\<close>:
  \<open>None\<close> is a response that is empty or has no such key, \<open>Some cs\<close> one whose
  choices carry the texts \<open>cs\<close>. The remote service is a function of the messages
  sent and of the number of the attempt.
\<close>

type_synonym response = "pystr list option"

datatype api_result = Ok response | Err exn_class pystr

type_synonym remote = "message list \<Rightarrow> nat \<Rightarrow> api_result"

text \<open>The decorator's \<open>retry_if_exception_type\<close>: the five classes it lists.\<close>

definition retry_if_exception_type :: "exn_class \<Rightarrow> bool" where
  "retry_if_exception_type c =
     (c = APIError \<or> c = Timeout \<or> c = TryAgain \<or> c = ServiceUnavailableError \<or> c = RateLimitError)"

text \<open>\<open>wait_exponential(multiplier=1, min=4, max=60)\<close>, in seconds.\<close>

definition wait_exponential :: "nat \<Rightarrow> real" where
  "wait_exponential attempt_number = max 4 (min (2 ^ (attempt_number - 1)) 60)"

text \<open>
  The loop of the \<open>retry\<close> decorator around \<open>call_openai_api\<close>: call; on an exception
  that is not of a listed class, or when \<open>stop_after_attempt\<close> says stop, raise it
  again (\<open>reraise=True\<close>); otherwise sleep and call once more.
\<close>

function call_with_retry :: "nat \<Rightarrow> remote \<Rightarrow> message list \<Rightarrow> nat \<Rightarrow> event list \<times> api_result" where
  "call_with_retry stop_after_attempt remote msgs attempt_number =
     (case remote msgs attempt_number of
        Ok response \<Rightarrow> ([RemoteCall msgs], Ok response)
      | Err c text \<Rightarrow>
          if \<not> retry_if_exception_type c then ([RemoteCall msgs], Err c text)
          else if attempt_number \<ge> stop_after_attempt then ([RemoteCall msgs], Err c text)
          else (case call_with_retry stop_after_attempt remote msgs (Suc attempt_number) of
                  (evs, r) \<Rightarrow>
                    (RemoteCall msgs # Backoff (wait_exponential attempt_number) # evs, r)))"
  by pat_completeness auto
termination
  by (relation "measure (\<lambda>(stop_after_attempt, remote, msgs, attempt_number).
                  stop_after_attempt - attempt_number)") auto

declare call_with_retry.simps [simp del]

definition call_openai_api :: "remote \<Rightarrow> message list \<Rightarrow> event list \<times> api_result" where
  "call_openai_api remote msgs = call_with_retry 5 remote msgs 1"

subsection \<open>Sending a message\<close>

text \<open>
  The code points that \<open>str.strip()\<close> removes from both ends of a text.
\<close>

definition isspace :: "nat \<Rightarrow> bool" where
  "isspace c =
     ((9 \<le> c \<and> c \<le> 13) \<or> (28 \<le> c \<and> c \<le> 32) \<or> c = 133 \<or> c = 160 \<or> c = 5760
      \<or> (8192 \<le> c \<and> c \<le> 8202) \<or> c = 8232 \<or> c = 8233 \<or> c = 8239 \<or> c = 8287
      \<or> c = 12288)"

definition strip :: "pystr \<Rightarrow> pystr" where
  "strip s = rev (dropWhile isspace (rev (dropWhile isspace s)))"

text \<open>The fixed texts of \<open>send_message\<close>; the first code points are the two signs.\<close>

definition invalid_input_text :: pystr where
  "invalid_input_text = [9888, 65039] @ str '' Please provide a valid input.''"

definition no_response_text :: pystr where
  "no_response_text = [9888, 65039] @ str '' No response received from the assistant.''"

definition authentication_error_text :: pystr where
  "authentication_error_text = [10060] @ str '' Authentication error: Check your API key.''"

definition rate_limit_text :: pystr where
  "rate_limit_text = [9888, 65039] @ str '' Rate limit exceeded. Please try again later.''"

definition openai_error_text :: "pystr \<Rightarrow> pystr" where
  "openai_error_text e = [10060] @ str '' OpenAI API error: '' @ e"

definition unexpected_error_text :: "pystr \<Rightarrow> pystr" where
  "unexpected_error_text e = [10060] @ str '' An unexpected error occurred: '' @ e"

text \<open>The chain of \<open>except\<close> clauses, in the order of the source.\<close>

definition error_reply :: "exn_class \<Rightarrow> pystr \<Rightarrow> pystr" where
  "error_reply c text =
     (if c = AuthenticationError then authentication_error_text
      else if c = RateLimitError then rate_limit_text
      else if is_OpenAIError c then openai_error_text text
      else unexpected_error_text text)"

text \<open>
  \<open>send_message\<close>, given the tokenizer, the room on the stack and the clock readings
  for the rate limiter, the remote service and whether the session file can be
  written. An exception of \<open>acquire\<close> is raised outside the \<open>try\<close> block and leaves
  \<open>send_message\<close>.
\<close>

definition send_message ::
  "tokenizer \<Rightarrow> nat \<Rightarrow> real list \<Rightarrow> remote \<Rightarrow> bool \<Rightarrow> ChatGPTHandler \<Rightarrow> pystr
     \<Rightarrow> event list \<times> pystr outcome \<times> ChatGPTHandler"
where
  "send_message enc room clock remote disk_ok h user_input =
     (if strip user_input = [] then ([], Returned invalid_input_text, h)
      else
        let a = acquire room clock (rate_limiter h);
            h0 = h\<lparr>rate_limiter := bucket a\<rparr>
        in case result a of
             Blocked \<Rightarrow> (effects a, Blocked, h0)
           | Raised c \<Rightarrow> (effects a, Raised c, h0)
           | Returned _ \<Rightarrow>
               let h1 = h0\<lparr>messages := messages h0 @ [user_message user_input],
                           session_changed := True\<rparr>;
                   evs1 = effects a @ [Appended (user_message user_input)]
               in case manage_token_limit enc h1 of
                    (evs2, h2) \<Rightarrow>
                      (case call_openai_api remote (messages h2) of
                         (evs3, Ok (Some (content # choices))) \<Rightarrow>
                           let answer = strip content;
                               h3 = h2\<lparr>messages := messages h2 @ [assistant_message answer],
                                       session_changed := True\<rparr>
                           in (case save_session disk_ok h3 of
                                 (evs4, h4) \<Rightarrow>
                                   (evs1 @ evs2 @ evs3 @ [Appended (assistant_message answer)] @ evs4,
                                    Returned answer, h4))
                       | (evs3, Ok _) \<Rightarrow> (evs1 @ evs2 @ evs3, Returned no_response_text, h2)
                       | (evs3, Err c text) \<Rightarrow>
                           (evs1 @ evs2 @ evs3, Returned (error_reply c text), h2)))"

section \<open>Concrete inputs\<close>

text \<open>
  A small tokenizer for the examples: one token for each code point of a text. Like
  tiktoken's \<open>encode\<close> it raises on a value that is not text and on the text of a
  special token.
\<close>

definition demo_encode :: tokenizer where
  "demo_encode v =
     (case v of
        Str s \<Rightarrow> if s = str ''<|endoftext|>'' then None else Some s
      | _ \<Rightarrow> None)"

text \<open>A limiter as \<open>RateLimiter(5, 60.0)\<close> builds it at time 0, full and empty.\<close>

definition full_bucket :: rate_limiter where
  "full_bucket = \<lparr>max_calls = 5, period = 60, tokens = 5, last_refill = 0\<rparr>"

definition empty_bucket :: rate_limiter where
  "empty_bucket = \<lparr>max_calls = 5, period = 60, tokens = 0, last_refill = 0\<rparr>"


text \<open>
  A session of a system prompt and the user message just appended, with a budget
  that is too small for the two.
\<close>

definition tight_handler :: ChatGPTHandler where
  "tight_handler =
     \<lparr>messages = [system_message (str ''s''), user_message (str ''hi'')],
      session_changed = True, max_context_tokens = 10, max_response_tokens = 5,
      rate_limiter = full_bucket, session_file = None\<rparr>"

text \<open>A session of one message that alone is over the budget.\<close>

definition lone_handler :: ChatGPTHandler where
  "lone_handler =
     \<lparr>messages = [user_message (str ''hi'')],
      session_changed = True, max_context_tokens = 10, max_response_tokens = 5,
      rate_limiter = full_bucket, session_file = None\<rparr>"

text \<open>
  A session of three messages (33 tokens) with room for two of them (23 tokens) next to
  the 5 tokens kept for the response.
\<close>

definition roomy_handler :: ChatGPTHandler where
  "roomy_handler =
     \<lparr>messages = [system_message (str ''s''), user_message (str ''hi''), user_message (str ''yo'')],
      session_changed = False, max_context_tokens = 30, max_response_tokens = 5,
      rate_limiter = full_bucket, session_file = None\<rparr>"

text \<open>The session of three messages after a token is taken and the input \<open>ok\<close> is appended.\<close>

definition busy_handler :: ChatGPTHandler where
  "busy_handler =
     \<lparr>messages = [system_message (str ''s''), user_message (str ''hi''), user_message (str ''yo''),
                  user_message (str ''ok'')],
      session_changed = True, max_context_tokens = 30, max_response_tokens = 5,
      rate_limiter = \<lparr>max_calls = 5, period = 60, tokens = 4, last_refill = 0\<rparr>, session_file = None\<rparr>"

text \<open>A remote service that turns every request down, and one that always answers.\<close>

definition rejecting_remote :: remote where
  "rejecting_remote msgs attempt_number = Err AuthenticationError (str ''Incorrect API key'')"

definition answering_remote :: remote where
  "answering_remote msgs attempt_number = Ok (Some [str '' hello ''])"

section \<open>Notions used in the statements\<close>

text \<open>The tokenizer accepts every field value of a message.\<close>

definition encodes :: "tokenizer \<Rightarrow> message \<Rightarrow> bool" where
  "encodes enc m = list_all (\<lambda>item. enc (snd item) \<noteq> None) (DAList.impl_of m)"

text \<open>
  The step of \<open>send_message\<close> an effect belongs to: 0 for the rate limiter, 1 for the
  append of the user message, 2 for the evictions, 3 for the remote call and its
  retries, 4 for the append of the assistant's reply, 5 for the write of the session.
\<close>

fun phase :: "event \<Rightarrow> nat" where
  "phase (Slept d) = 0"
| "phase (Refilled k) = 0"
| "phase (TokenAcquired k) = 0"
| "phase (Appended m) =
     (if DAList.lookup m (str ''role'') = Some (Str (str ''assistant'')) then 4 else 1)"
| "phase (Evicted m) = 2"
| "phase (RemoteCall msgs) = 3"
| "phase (Backoff d) = 3"
| "phase (Saved msgs) = 5"

text \<open>
  The token count that a refill or an acquisition shows lies between 0 and the
  capacity; the other effects show no count.
\<close>

fun tokens_within :: "int \<Rightarrow> event \<Rightarrow> bool" where
  "tokens_within capacity (Refilled k) = (0 \<le> k \<and> k \<le> capacity)"
| "tokens_within capacity (TokenAcquired k) = (0 \<le> k \<and> k \<le> capacity)"
| "tokens_within capacity e = True"

text \<open>The messages of the requests made to the remote service, in the order of the trace.\<close>

fun requests :: "event list \<Rightarrow> message list list" where
  "requests [] = []"
| "requests (RemoteCall msgs # evs) = msgs # requests evs"
| "requests (e # evs) = requests evs"


section \<open>Evaluating the concrete inputs\<close>

lemma impl_of_user_message:
  "DAList.impl_of (user_message u) = [(str ''role'', Str (str ''user'')), (str ''content'', Str u)]"
  by (rule user_message.rep_eq)

lemma impl_of_assistant_message:
  "DAList.impl_of (assistant_message u) =
     [(str ''role'', Str (str ''assistant'')), (str ''content'', Str u)]"
  by (rule assistant_message.rep_eq)

lemma impl_of_system_message:
  "DAList.impl_of (system_message u) = [(str ''role'', Str (str ''system'')), (str ''content'', Str u)]"
  by (rule system_message.rep_eq)

lemmas demo_count =
  count_tokens_def impl_of_user_message impl_of_system_message impl_of_assistant_message
  demo_encode_def str_def tokens_per_message_def tokens_per_name_def

section \<open>The context window (\<open>manage_token_limit\<close>)\<close>

subsection \<open>The three ways through one round of the loop\<close>

lemma manage_token_limit_within:
  "count_tokens enc (messages h) + max_response_tokens h \<le> max_context_tokens h
   \<Longrightarrow> manage_token_limit enc h = ([], h)"
  by (subst manage_token_limit.simps) simp

lemma manage_token_limit_short:
  "length (messages h) \<le> 1 \<Longrightarrow> manage_token_limit enc h = ([], h)"
  by (subst manage_token_limit.simps) (auto split: list.splits)

lemma manage_token_limit_evict:
  "\<not> count_tokens enc (messages h) + max_response_tokens h \<le> max_context_tokens h
   \<Longrightarrow> messages h = first # removed # rest
   \<Longrightarrow> manage_token_limit enc h =
       (Evicted removed #
          fst (manage_token_limit enc (h\<lparr>messages := first # rest, session_changed := True\<rparr>)),
        snd (manage_token_limit enc (h\<lparr>messages := first # rest, session_changed := True\<rparr>)))"
  by (subst manage_token_limit.simps) (simp split: prod.splits)

subsection \<open>What the loop keeps and what it reaches\<close>

lemma manage_token_limit_config:
  "max_context_tokens (snd (manage_token_limit enc h)) = max_context_tokens h \<and>
   max_response_tokens (snd (manage_token_limit enc h)) = max_response_tokens h \<and>
   rate_limiter (snd (manage_token_limit enc h)) = rate_limiter h \<and>
   session_file (snd (manage_token_limit enc h)) = session_file h"
proof (induction enc h rule: manage_token_limit.induct)
  case (1 enc h)
  show ?case
  proof (cases "count_tokens enc (messages h) + max_response_tokens h \<le> max_context_tokens h")
    case True
    then show ?thesis by (simp add: manage_token_limit_within)
  next
    case over: False
    show ?thesis
    proof (cases "messages h")
      case Nil
      then show ?thesis by (simp add: manage_token_limit_short)
    next
      case (Cons first tl)
      show ?thesis
      proof (cases tl)
        case Nil
        with Cons show ?thesis by (simp add: manage_token_limit_short)
      next
        case (Cons removed rest)
        with \<open>messages h = first # tl\<close> have m: "messages h = first # removed # rest" by simp
        from "1.IH" [OF over m refl] manage_token_limit_evict [OF over m]
        show ?thesis by simp
      qed
    qed
  qed
qed

lemma manage_token_limit_result:
  "count_tokens enc (messages (snd (manage_token_limit enc h))) + max_response_tokens h
     \<le> max_context_tokens h
   \<or> length (messages (snd (manage_token_limit enc h))) \<le> 1"
proof (induction enc h rule: manage_token_limit.induct)
  case (1 enc h)
  show ?case
  proof (cases "count_tokens enc (messages h) + max_response_tokens h \<le> max_context_tokens h")
    case True
    then show ?thesis by (simp add: manage_token_limit_within)
  next
    case over: False
    show ?thesis
    proof (cases "messages h")
      case Nil
      then show ?thesis by (simp add: manage_token_limit_short)
    next
      case (Cons first tl)
      show ?thesis
      proof (cases tl)
        case Nil
        with Cons show ?thesis by (simp add: manage_token_limit_short)
      next
        case (Cons removed rest)
        with \<open>messages h = first # tl\<close> have m: "messages h = first # removed # rest" by simp
        from "1.IH" [OF over m refl] manage_token_limit_evict [OF over m]
        show ?thesis by simp
      qed
    qed
  qed
qed

text \<open>
  What is evicted is a run of messages right after the first one, oldest first; the
  first message and the order of the others stay.
\<close>

lemma manage_token_limit_evicts_run:
  "messages h = first # others \<Longrightarrow>
   \<exists>k \<le> length others.
     fst (manage_token_limit enc h) = map Evicted (take k others) \<and>
     messages (snd (manage_token_limit enc h)) = first # drop k others"
proof (induction enc h arbitrary: others rule: manage_token_limit.induct)
  case (1 enc h)
  show ?case
  proof (cases "count_tokens enc (messages h) + max_response_tokens h \<le> max_context_tokens h")
    case True
    with "1.prems" have "fst (manage_token_limit enc h) = map Evicted (take 0 others) \<and>
      messages (snd (manage_token_limit enc h)) = first # drop 0 others"
      by (simp add: manage_token_limit_within)
    then show ?thesis by blast
  next
    case over: False
    show ?thesis
    proof (cases others)
      case Nil
      with "1.prems" have "fst (manage_token_limit enc h) = map Evicted (take 0 others) \<and>
        messages (snd (manage_token_limit enc h)) = first # drop 0 others"
        by (simp add: manage_token_limit_short)
      then show ?thesis by blast
    next
      case (Cons removed rest)
      with "1.prems" have m: "messages h = first # removed # rest" by simp
      let ?h' = "h\<lparr>messages := first # rest, session_changed := True\<rparr>"
      have "messages ?h' = first # rest" by simp
      from "1.IH" [OF over m refl this] obtain k where k: "k \<le> length rest"
        "fst (manage_token_limit enc ?h') = map Evicted (take k rest)"
        "messages (snd (manage_token_limit enc ?h')) = first # drop k rest" by blast
      with manage_token_limit_evict [OF over m] Cons
      have "Suc k \<le> length others \<and>
        fst (manage_token_limit enc h) = map Evicted (take (Suc k) others) \<and>
        messages (snd (manage_token_limit enc h)) = first # drop (Suc k) others"
        by simp
      then show ?thesis by blast
    qed
  qed
qed

subsection \<open>The loop on the concrete sessions\<close>

lemma manage_token_limit_lone:
  "manage_token_limit demo_encode lone_handler = ([], lone_handler)"
  by (simp add: manage_token_limit_short lone_handler_def)

lemma manage_token_limit_roomy:
  "manage_token_limit demo_encode roomy_handler =
     ([Evicted (user_message (str ''hi''))],
      roomy_handler\<lparr>messages := [system_message (str ''s''), user_message (str ''yo'')],
                    session_changed := True\<rparr>)"
proof -
  have over: "\<not> count_tokens demo_encode (messages roomy_handler) + max_response_tokens roomy_handler
      \<le> max_context_tokens roomy_handler"
    by (simp add: roomy_handler_def demo_count)
  have m: "messages roomy_handler =
      [system_message (str ''s''), user_message (str ''hi''), user_message (str ''yo'')]"
    by (simp add: roomy_handler_def)
  let ?h' = "roomy_handler\<lparr>messages := [system_message (str ''s''), user_message (str ''yo'')],
                           session_changed := True\<rparr>"
  have fits: "manage_token_limit demo_encode ?h' = ([], ?h')"
    by (rule manage_token_limit_within) (simp add: roomy_handler_def demo_count)
  show ?thesis
    by (simp add: manage_token_limit_evict [OF over m] fits)
qed

text \<open>
  C1: whenever \<open>manage_token_limit\<close> evicts a message, it is neither the leading system
  message nor the message appended last, and the loop ends on every input. The loop
  does end (the function is total) and the first message stays
  (\<open>manage_token_limit_evicts_run\<close>). But the guard of \<open>pop(1)\<close> is
  \<open>len(messages) > 1\<close>: on a session of a system prompt and the user message just
  appended that is over the budget, the loop takes out the second message, which is the
  one appended last, and leaves the system prompt alone.
\<close>

theorem manage_token_limit_evicts_newest:
  "last (messages tight_handler) = user_message (str ''hi'') \<and>
   manage_token_limit demo_encode tight_handler =
     ([Evicted (user_message (str ''hi''))],
      tight_handler\<lparr>messages := [system_message (str ''s'')]\<rparr>)"
proof -
  have over: "\<not> count_tokens demo_encode (messages tight_handler) + max_response_tokens tight_handler
      \<le> max_context_tokens tight_handler"
    by (simp add: tight_handler_def demo_count)
  have m: "messages tight_handler = [system_message (str ''s''), user_message (str ''hi'')]"
    by (simp add: tight_handler_def)
  show ?thesis
    by (simp add: manage_token_limit_evict [OF over m] manage_token_limit_short)
       (simp add: tight_handler_def)
qed

text \<open>
  C3, as stated: after \<open>manage_token_limit\<close> returns, the tokens of the session plus
  \<open>max_response_tokens\<close> are at most \<open>max_context_tokens\<close>. A session of one message
  of 12 tokens with 5 tokens kept for the response and a context of 10 comes back as
  it was, at 17 tokens.
\<close>

theorem manage_token_limit_over_budget:
  "\<not> count_tokens demo_encode (messages (snd (manage_token_limit demo_encode lone_handler)))
        + max_response_tokens (snd (manage_token_limit demo_encode lone_handler))
      \<le> max_context_tokens (snd (manage_token_limit demo_encode lone_handler))"
  by (simp add: manage_token_limit_lone) (simp add: lone_handler_def demo_count)

text \<open>
  C3, amended: after \<open>manage_token_limit\<close> returns, the tokens of the session plus
  \<open>max_response_tokens\<close> are at most \<open>max_context_tokens\<close>, unless the loop stopped
  because at most one message was left.
\<close>

theorem manage_token_limit_budget:
  "1 < length (messages (snd (manage_token_limit enc h))) \<Longrightarrow>
   count_tokens enc (messages (snd (manage_token_limit enc h)))
       + max_response_tokens (snd (manage_token_limit enc h))
     \<le> max_context_tokens (snd (manage_token_limit enc h))"
  using manage_token_limit_result [of enc h] manage_token_limit_config [of enc h] by simp

text \<open>The amended C3 on the session of three messages, which is cut to two.\<close>

theorem manage_token_limit_budget_witness:
  "1 < length (messages (snd (manage_token_limit demo_encode roomy_handler))) \<and>
   count_tokens demo_encode (messages (snd (manage_token_limit demo_encode roomy_handler)))
       + max_response_tokens (snd (manage_token_limit demo_encode roomy_handler))
     \<le> max_context_tokens (snd (manage_token_limit demo_encode roomy_handler))"
proof -
  have two: "1 < length (messages (snd (manage_token_limit demo_encode roomy_handler)))"
    by (simp add: manage_token_limit_roomy)
  from two manage_token_limit_budget [OF two] show ?thesis by simp
qed

text \<open>
  C7: \<open>manage_token_limit\<close> is idempotent. Run again right after a first run, it evicts
  nothing and returns the handler, and so the list of messages, as the first run left
  it.
\<close>

theorem manage_token_limit_idempotent:
  "manage_token_limit enc (snd (manage_token_limit enc h)) =
     ([], snd (manage_token_limit enc h))"
proof -
  let ?h' = "snd (manage_token_limit enc h)"
  from manage_token_limit_result [of enc h] manage_token_limit_config [of enc h]
  have "count_tokens enc (messages ?h') + max_response_tokens ?h' \<le> max_context_tokens ?h'
        \<or> length (messages ?h') \<le> 1" by simp
  then show ?thesis
    using manage_token_limit_within manage_token_limit_short by blast
qed

section \<open>Token counting (\<open>count_tokens\<close>)\<close>

subsection \<open>The accumulator and the two loops\<close>

lemma count_items_lower:
  "distinct (map fst items) \<Longrightarrow> count_items enc items n = Some k \<Longrightarrow>
   n - (if str ''name'' \<in> fst ` set items then 1 else 0) \<le> k"
proof (induction items arbitrary: n)
  case Nil
  then show ?case by simp
next
  case (Cons item items)
  obtain key val where item: "item = (key, val)" by (cases item)
  from Cons.prems(2) item obtain ids where ids: "enc val = Some ids"
    and rest: "count_items enc items
        (n + int (length ids) + (if key = str ''name'' then tokens_per_name else 0)) = Some k"
    by (auto split: option.splits)
  from Cons.prems(1) item have d: "distinct (map fst items)" and fresh: "key \<notin> fst ` set items"
    by auto
  from Cons.IH [OF d rest] fresh item show ?case
    by (auto simp: tokens_per_name_def split: if_splits)
qed

lemma count_items_total:
  "list_all (\<lambda>item. enc (snd item) \<noteq> None) items \<Longrightarrow> \<exists>k. count_items enc items n = Some k"
  by (induction items arbitrary: n) auto

lemma count_messages_append:
  "count_messages enc (ms @ [m]) n =
     (case count_messages enc ms n of
        None \<Rightarrow> None
      | Some n' \<Rightarrow> count_items enc (DAList.impl_of m) (n' + tokens_per_message))"
  by (induction ms arbitrary: n) (auto split: option.splits)

text \<open>
  C8, as stated: \<open>count_tokens\<close> never decreases when a message is appended. The
  tokenizer raises on the content of the appended message, \<open>count_tokens\<close> catches the
  exception and returns 0, less than the 12 tokens of the list before.
\<close>

theorem count_tokens_drops_to_zero:
  "\<not> count_tokens demo_encode [user_message (str ''hi'')]
     \<le> count_tokens demo_encode
          ([user_message (str ''hi'')] @ [user_message (str ''<|endoftext|>'')])"
  by (simp add: demo_count)

text \<open>
  C8, amended: \<open>count_tokens\<close> is a function of the tokenizer and the message list
  alone, and appending a message whose field values the tokenizer accepts never
  decreases it.
\<close>

theorem count_tokens_append:
  assumes "encodes enc m"
  shows "count_tokens enc ms \<le> count_tokens enc (ms @ [m])"
proof (cases "count_messages enc ms 0")
  case None
  then show ?thesis by (simp add: count_tokens_def count_messages_append)
next
  case (Some n)
  from assms obtain k where k: "count_items enc (DAList.impl_of m) (n + tokens_per_message) = Some k"
    using count_items_total unfolding encodes_def by blast
  have "n + tokens_per_message - (if str ''name'' \<in> fst ` set (DAList.impl_of m) then 1 else 0) \<le> k"
    by (rule count_items_lower [OF _ k]) simp
  then have "n \<le> k" by (simp add: tokens_per_message_def split: if_splits)
  with Some k show ?thesis by (simp add: count_tokens_def count_messages_append)
qed

text \<open>The amended C8 on a list of one message and an appended one.\<close>

theorem count_tokens_append_witness:
  "encodes demo_encode (user_message (str ''yo'')) \<and>
   count_tokens demo_encode [user_message (str ''hi'')]
     \<le> count_tokens demo_encode ([user_message (str ''hi'')] @ [user_message (str ''yo'')])"
proof -
  have e: "encodes demo_encode (user_message (str ''yo''))"
    by (simp add: encodes_def impl_of_user_message demo_encode_def str_def)
  from e count_tokens_append [OF e, of "[user_message (str ''hi'')]"] show ?thesis by simp
qed

section \<open>The retries (\<open>call_openai_api\<close>)\<close>

text \<open>
  C9: when the first invocation of the remote call raises an error that is not of a
  class the decorator retries, the error is raised again after that one invocation,
  whatever the number of attempts allowed; so it is for \<open>call_openai_api\<close>, which
  allows 5.
\<close>

theorem call_with_retry_fatal:
  "remote msgs 1 = Err c text \<Longrightarrow> \<not> retry_if_exception_type c \<Longrightarrow>
   call_with_retry stop_after_attempt remote msgs 1 = ([RemoteCall msgs], Err c text) \<and>
   call_openai_api remote msgs = ([RemoteCall msgs], Err c text)"
  by (simp add: call_openai_api_def call_with_retry.simps [of _ remote msgs "Suc 0"])

text \<open>C9 on an authentication failure, with 3 attempts allowed and with the 5 of the source.\<close>

theorem call_with_retry_fatal_witness:
  "call_with_retry 3 rejecting_remote [user_message (str ''hi'')] 1
     = ([RemoteCall [user_message (str ''hi'')]], Err AuthenticationError (str ''Incorrect API key'')) \<and>
   call_openai_api rejecting_remote [user_message (str ''hi'')]
     = ([RemoteCall [user_message (str ''hi'')]], Err AuthenticationError (str ''Incorrect API key''))"
proof -
  have r: "rejecting_remote [user_message (str ''hi'')] 1
      = Err AuthenticationError (str ''Incorrect API key'')"
    by (simp add: rejecting_remote_def)
  have f: "\<not> retry_if_exception_type AuthenticationError"
    by (simp add: retry_if_exception_type_def)
  from call_with_retry_fatal
         [of rejecting_remote "[user_message (str ''hi'')]" AuthenticationError
             "str ''Incorrect API key''" 3, OF r f]
  show ?thesis .
qed

section \<open>Sending a message (\<open>send_message\<close>)\<close>

lemma strip_empty_iff: "strip s = [] \<longleftrightarrow> (\<forall>c\<in>set s. isspace c)"
proof
  assume "strip s = []"
  then have a: "\<forall>c\<in>set (dropWhile isspace s). isspace c"
    by (simp add: strip_def dropWhile_eq_Nil_conv)
  have "dropWhile isspace s = []"
  proof (rule ccontr)
    assume ne: "dropWhile isspace s \<noteq> []"
    then have "\<not> isspace (hd (dropWhile isspace s))" by (rule hd_dropWhile)
    moreover from ne have "hd (dropWhile isspace s) \<in> set (dropWhile isspace s)" by simp
    ultimately show False using a by blast
  qed
  then show "\<forall>c\<in>set s. isspace c" by (rule iffD1 [OF dropWhile_eq_Nil_conv])
next
  assume "\<forall>c\<in>set s. isspace c"
  then have "dropWhile isspace s = []" by (rule iffD2 [OF dropWhile_eq_Nil_conv])
  then show "strip s = []" by (simp add: strip_def del: dropWhile_eq_Nil_conv)
qed

text \<open>
  C10: on an input that is empty or all whitespace \<open>send_message\<close> returns the fixed
  warning and does nothing else: no effect is performed (no token taken, no remote
  call) and the handler, with its session and its rate limiter, is as before.
\<close>

theorem send_message_blank:
  "\<forall>c\<in>set user_input. isspace c \<Longrightarrow>
   send_message enc room clock remote disk_ok h user_input
     = ([], Returned invalid_input_text, h)"
  by (simp add: send_message_def strip_empty_iff)

text \<open>C10 on the input of a space, a tab and a line feed.\<close>

theorem send_message_blank_witness:
  "(isspace 32 \<and> isspace 9 \<and> isspace 10) \<and>
   send_message demo_encode 984 [0] answering_remote True roomy_handler [32, 9, 10]
     = ([], Returned invalid_input_text, roomy_handler)"
proof -
  have b: "\<forall>c\<in>set [32, 9, 10]. isspace c" by (simp add: isspace_def)
  from b send_message_blank [OF b] show ?thesis by simp
qed

subsection \<open>The steps of \<open>send_message\<close> and their order\<close>

lemma phase_user [simp]: "phase (Appended (user_message u)) = 1"
  by (simp add: lookup.rep_eq impl_of_user_message str_def)

lemma phase_assistant [simp]: "phase (Appended (assistant_message u)) = 4"
  by (simp add: lookup.rep_eq impl_of_assistant_message str_def)

declare phase.simps(4) [simp del]

lemma acquire_phase: "list_all (\<lambda>e. phase e = 0) (effects (acquire room clock rl))"
  by (induction room clock rl rule: acquire.induct) (simp_all add: Let_def)

lemma acquire_returned:
  "result (acquire room clock rl) = Returned () \<Longrightarrow>
   \<exists>k. TokenAcquired k \<in> set (effects (acquire room clock rl))"
proof (induction room clock rl rule: acquire.induct)
  case (1 clock rl)
  then show ?case by simp
next
  case (2 room rl)
  then show ?case by simp
next
  case (3 room current_time clock rl)
  then show ?case
    by (auto simp: Let_def split: if_splits)
qed

lemma manage_token_limit_phase: "list_all (\<lambda>e. phase e = 2) (fst (manage_token_limit enc h))"
proof (cases "messages h")
  case Nil
  then show ?thesis by (simp add: manage_token_limit_short)
next
  case (Cons first others)
  from manage_token_limit_evicts_run [OF this, of enc] show ?thesis
    by (auto simp: list_all_iff)
qed

lemma call_with_retry_phase:
  "list_all (\<lambda>e. phase e = 3) (fst (call_with_retry n remote msgs k))"
proof (induction n remote msgs k rule: call_with_retry.induct)
  case (1 n remote msgs k)
  show ?case
    using "1.IH"
    by (subst call_with_retry.simps) (auto split: api_result.splits prod.splits)
qed

text \<open>
  The invocations of one run of the retry loop: each sends the same messages; all but
  the last raised an error of a class that is retried; the result is that of the last;
  the attempts stay within the number allowed, and a last error of a retried class
  means that number is reached.
\<close>

lemma call_with_retry_attempts:
  "\<exists>d. requests (fst (call_with_retry n remote msgs k)) = replicate (Suc d) msgs \<and>
       snd (call_with_retry n remote msgs k) = remote msgs (k + d) \<and>
       k + d \<le> max k n \<and>
       (\<forall>j. k \<le> j \<and> j < k + d \<longrightarrow>
            (\<exists>c msg. remote msgs j = Err c msg \<and> retry_if_exception_type c)) \<and>
       (\<forall>c msg. remote msgs (k + d) = Err c msg \<and> retry_if_exception_type c \<longrightarrow> n \<le> k + d)"
proof (induction n remote msgs k rule: call_with_retry.induct)
  case (1 n remote msgs k)
  let ?P = "\<lambda>d. requests (fst (call_with_retry n remote msgs k)) = replicate (Suc d) msgs \<and>
       snd (call_with_retry n remote msgs k) = remote msgs (k + d) \<and>
       k + d \<le> max k n \<and>
       (\<forall>j. k \<le> j \<and> j < k + d \<longrightarrow>
            (\<exists>c msg. remote msgs j = Err c msg \<and> retry_if_exception_type c)) \<and>
       (\<forall>c msg. remote msgs (k + d) = Err c msg \<and> retry_if_exception_type c \<longrightarrow> n \<le> k + d)"
  show ?case
  proof (cases "remote msgs k")
    case (Ok r)
    then have "call_with_retry n remote msgs k = ([RemoteCall msgs], Ok r)"
      by (subst call_with_retry.simps) simp
    with Ok have "?P 0" by auto
    then show ?thesis by blast
  next
    case (Err c msg)
    show ?thesis
    proof (cases "\<not> retry_if_exception_type c \<or> n \<le> k")
      case True
      with Err have "call_with_retry n remote msgs k = ([RemoteCall msgs], Err c msg)"
        by (subst call_with_retry.simps) auto
      with Err True have "?P 0" by auto
      then show ?thesis by blast
    next
      case False
      then have retry: "retry_if_exception_type c" and more: "k < n" by auto
      from False have a1: "\<not> \<not> retry_if_exception_type c" and a2: "\<not> n \<le> k" by auto
      let ?r = "call_with_retry n remote msgs (Suc k)"
      from "1.IH" [OF Err a1 a2] obtain d where d:
        "requests (fst ?r) = replicate (Suc d) msgs"
        "snd ?r = remote msgs (Suc k + d)"
        "Suc k + d \<le> max (Suc k) n"
        "\<forall>j. Suc k \<le> j \<and> j < Suc k + d \<longrightarrow>
            (\<exists>c msg. remote msgs j = Err c msg \<and> retry_if_exception_type c)"
        "\<forall>c msg. remote msgs (Suc k + d) = Err c msg \<and> retry_if_exception_type c
            \<longrightarrow> n \<le> Suc k + d"
        by blast
      from Err False
      have unfold: "call_with_retry n remote msgs k =
          (RemoteCall msgs # Backoff (wait_exponential k) # fst ?r, snd ?r)"
        by (subst call_with_retry.simps) (auto split: prod.splits)
      have early: "\<forall>j. k \<le> j \<and> j < k + Suc d \<longrightarrow>
            (\<exists>c msg. remote msgs j = Err c msg \<and> retry_if_exception_type c)"
      proof (intro allI impI)
        fix j assume j: "k \<le> j \<and> j < k + Suc d"
        show "\<exists>c msg. remote msgs j = Err c msg \<and> retry_if_exception_type c"
        proof (cases "j = k")
          case True
          with Err retry show ?thesis by blast
        next
          case False
          with j have "Suc k \<le> j \<and> j < Suc k + d" by simp
          with d(4) show ?thesis by blast
        qed
      qed
      from d more unfold early have "?P (Suc d)" by simp
      then show ?thesis by blast
    qed
  qed
qed

lemma call_openai_api_attempts:
  "\<exists>d. requests (fst (call_openai_api remote msgs)) = replicate (Suc d) msgs \<and>
       snd (call_openai_api remote msgs) = remote msgs (Suc d) \<and>
       Suc d \<le> 5 \<and>
       (\<forall>j. 1 \<le> j \<and> j < Suc d \<longrightarrow>
            (\<exists>c msg. remote msgs j = Err c msg \<and> retry_if_exception_type c)) \<and>
       (\<forall>c msg. remote msgs (Suc d) = Err c msg \<and> retry_if_exception_type c \<longrightarrow> Suc d = 5)"
proof -
  from call_with_retry_attempts [of 5 remote msgs 1] obtain d where d:
    "requests (fst (call_with_retry 5 remote msgs 1)) = replicate (Suc d) msgs"
    "snd (call_with_retry 5 remote msgs 1) = remote msgs (1 + d)"
    "1 + d \<le> max 1 5"
    "\<forall>j. 1 \<le> j \<and> j < 1 + d \<longrightarrow>
        (\<exists>c msg. remote msgs j = Err c msg \<and> retry_if_exception_type c)"
    "\<forall>c msg. remote msgs (1 + d) = Err c msg \<and> retry_if_exception_type c \<longrightarrow> 5 \<le> 1 + d"
    by blast
  from d(3) have le: "Suc d \<le> 5" by simp
  from d(5) le have top: "\<forall>c msg. remote msgs (Suc d) = Err c msg \<and> retry_if_exception_type c
      \<longrightarrow> Suc d = 5"
    by auto
  from d(1) d(2) d(4) le top show ?thesis
    unfolding call_openai_api_def by auto
qed

lemma call_openai_api_phase: "list_all (\<lambda>e. phase e = 3) (fst (call_openai_api remote msgs))"
  by (simp add: call_openai_api_def call_with_retry_phase)

lemma save_session_changed:
  "session_changed h \<Longrightarrow>
   fst (save_session disk_ok h) = (if disk_ok then [Saved (messages h)] else []) \<and>
   messages (snd (save_session disk_ok h)) = messages h"
  by (simp add: save_session_def)

subsection \<open>Reading the steps off a trace\<close>

lemma filter_all: "list_all Q xs \<Longrightarrow> (\<And>e. Q e \<Longrightarrow> P e) \<Longrightarrow> filter P xs = xs"
  by (induction xs) auto

lemma filter_none: "list_all Q xs \<Longrightarrow> (\<And>e. Q e \<Longrightarrow> \<not> P e) \<Longrightarrow> filter P xs = []"
  by (induction xs) auto

lemma requests_append: "requests (xs @ ys) = requests xs @ requests ys"
  by (induction xs rule: requests.induct) simp_all

lemma requests_other: "list_all (\<lambda>e. phase e \<noteq> 3) xs \<Longrightarrow> requests xs = []"
  by (induction xs rule: requests.induct) simp_all

lemma same_phase_sorted: "list_all (\<lambda>e. phase e = p) evs \<Longrightarrow> sorted (map phase evs)"
  by (induction evs) (auto simp: list_all_iff)

text \<open>
  A trace made of the effects of the rate limiter, one append, the evictions, the
  remote calls and a sorted tail of later steps, in this order.
\<close>

lemma trace_shape:
  assumes A: "list_all (\<lambda>e. phase e = 0) A" and u: "phase u = 1"
    and B: "list_all (\<lambda>e. phase e = 2) B" and C: "list_all (\<lambda>e. phase e = 3) C"
    and T: "list_all (\<lambda>e. 4 \<le> phase e) T" and sT: "sorted (map phase T)"
  shows "sorted (map phase (A @ [u] @ B @ C @ T))"
    and "filter (\<lambda>e. phase e = 0) (A @ [u] @ B @ C @ T) = A"
    and "filter (\<lambda>e. phase e = 1) (A @ [u] @ B @ C @ T) = [u]"
    and "filter (\<lambda>e. phase e = 2) (A @ [u] @ B @ C @ T) = B"
    and "filter (\<lambda>e. 4 \<le> phase e) (A @ [u] @ B @ C @ T) = T"
    and "requests (A @ [u] @ B @ C @ T) = requests C"
proof -
  show "sorted (map phase (A @ [u] @ B @ C @ T))"
    using A u B C T sT same_phase_sorted [OF A] same_phase_sorted [OF B] same_phase_sorted [OF C]
    by (auto simp: sorted_append list_all_iff)
  have "filter (\<lambda>e. phase e = 0) A = A" by (rule filter_all [OF A]) simp
  moreover have "filter (\<lambda>e. phase e = 0) B = []" by (rule filter_none [OF B]) simp
  moreover have "filter (\<lambda>e. phase e = 0) C = []" by (rule filter_none [OF C]) simp
  moreover have "filter (\<lambda>e. phase e = 0) T = []" by (rule filter_none [OF T]) simp
  ultimately show "filter (\<lambda>e. phase e = 0) (A @ [u] @ B @ C @ T) = A"
    using u by simp
  have "filter (\<lambda>e. phase e = 1) A = []" by (rule filter_none [OF A]) simp
  moreover have "filter (\<lambda>e. phase e = 1) B = []" by (rule filter_none [OF B]) simp
  moreover have "filter (\<lambda>e. phase e = 1) C = []" by (rule filter_none [OF C]) simp
  moreover have "filter (\<lambda>e. phase e = 1) T = []" by (rule filter_none [OF T]) simp
  ultimately show "filter (\<lambda>e. phase e = 1) (A @ [u] @ B @ C @ T) = [u]"
    using u by simp
  have "filter (\<lambda>e. phase e = 2) A = []" by (rule filter_none [OF A]) simp
  moreover have "filter (\<lambda>e. phase e = 2) B = B" by (rule filter_all [OF B]) simp
  moreover have "filter (\<lambda>e. phase e = 2) C = []" by (rule filter_none [OF C]) simp
  moreover have "filter (\<lambda>e. phase e = 2) T = []" by (rule filter_none [OF T]) simp
  ultimately show "filter (\<lambda>e. phase e = 2) (A @ [u] @ B @ C @ T) = B"
    using u by simp
  have "filter (\<lambda>e. 4 \<le> phase e) A = []" by (rule filter_none [OF A]) simp
  moreover have "filter (\<lambda>e. 4 \<le> phase e) B = []" by (rule filter_none [OF B]) simp
  moreover have "filter (\<lambda>e. 4 \<le> phase e) C = []" by (rule filter_none [OF C]) simp
  moreover have "filter (\<lambda>e. 4 \<le> phase e) T = T" by (rule filter_all [OF T]) simp
  ultimately show "filter (\<lambda>e. 4 \<le> phase e) (A @ [u] @ B @ C @ T) = T"
    using u by simp
  have "requests A = []" by (rule requests_other) (insert A, auto simp: list_all_iff)
  moreover have "\<And>xs. requests (u # xs) = requests xs" using u by (cases u) simp_all
  moreover have "requests B = []" by (rule requests_other) (insert B, auto simp: list_all_iff)
  moreover have "requests T = []" by (rule requests_other) (insert T, auto simp: list_all_iff)
  ultimately show "requests (A @ [u] @ B @ C @ T) = requests C"
    by (simp add: requests_append)
qed

subsection \<open>A run of \<open>send_message\<close>\<close>

lemma acquire_full:
  "acquire (Suc room) [0] full_bucket =
     \<lparr>effects = [TokenAcquired 4], result = Returned (),
      bucket = \<lparr>max_calls = 5, period = 60, tokens = 4, last_refill = 0\<rparr>,
      frames = 1, clock_rest = []\<rparr>"
  by (simp add: full_bucket_def refill_def refill_amount_def Let_def)

lemma manage_token_limit_busy:
  "manage_token_limit demo_encode busy_handler =
     ([Evicted (user_message (str ''hi'')), Evicted (user_message (str ''yo''))],
      busy_handler\<lparr>messages := [system_message (str ''s''), user_message (str ''ok'')]\<rparr>)"
proof -
  let ?h1 = "busy_handler\<lparr>messages := [system_message (str ''s''), user_message (str ''yo''),
      user_message (str ''ok'')], session_changed := True\<rparr>"
  let ?h2 = "busy_handler\<lparr>messages := [system_message (str ''s''), user_message (str ''ok'')],
      session_changed := True\<rparr>"
  have over0: "\<not> count_tokens demo_encode (messages busy_handler) + max_response_tokens busy_handler
      \<le> max_context_tokens busy_handler"
    by (simp add: busy_handler_def demo_count)
  have m0: "messages busy_handler = system_message (str ''s'') # user_message (str ''hi'')
      # [user_message (str ''yo''), user_message (str ''ok'')]"
    by (simp add: busy_handler_def)
  have over1: "\<not> count_tokens demo_encode (messages ?h1) + max_response_tokens ?h1
      \<le> max_context_tokens ?h1"
    by (simp add: busy_handler_def demo_count)
  have m1: "messages ?h1 = system_message (str ''s'') # user_message (str ''yo'')
      # [user_message (str ''ok'')]"
    by simp
  have fits: "manage_token_limit demo_encode ?h2 = ([], ?h2)"
    by (rule manage_token_limit_within) (simp add: busy_handler_def demo_count)
  have s1: "manage_token_limit demo_encode ?h1 = ([Evicted (user_message (str ''yo''))], ?h2)"
    by (simp add: manage_token_limit_evict [OF over1 m1] fits)
  have "manage_token_limit demo_encode busy_handler =
      ([Evicted (user_message (str ''hi'')), Evicted (user_message (str ''yo''))], ?h2)"
    by (simp add: manage_token_limit_evict [OF over0 m0] s1)
  then show ?thesis by (simp add: busy_handler_def)
qed

lemma call_openai_api_answering:
  "call_openai_api answering_remote msgs = ([RemoteCall msgs], Ok (Some [str '' hello '']))"
  by (simp add: call_openai_api_def answering_remote_def call_with_retry.simps [of _ answering_remote])

lemma call_openai_api_rejecting:
  "call_openai_api rejecting_remote msgs
     = ([RemoteCall msgs], Err AuthenticationError (str ''Incorrect API key''))"
  by (simp add: call_openai_api_def rejecting_remote_def retry_if_exception_type_def
        call_with_retry.simps [of _ rejecting_remote])

lemma strip_hello: "strip (str '' hello '') = str ''hello''"
  by (simp add: strip_def str_def isspace_def)

lemma strip_ok: "strip (str ''ok'') \<noteq> []"
  by (simp add: strip_def str_def isspace_def)

lemma busy_handler_start:
  "roomy_handler\<lparr>rate_limiter := \<lparr>max_calls = 5, period = 60, tokens = 4, last_refill = 0\<rparr>,
      messages := messages roomy_handler @ [user_message (str ''ok'')], session_changed := True\<rparr>
      = busy_handler"
  by (simp add: roomy_handler_def busy_handler_def)

lemma send_message_busy_run:
  "send_message demo_encode 984 [0] answering_remote True roomy_handler (str ''ok'') =
     ([TokenAcquired 4,
       Appended (user_message (str ''ok'')),
       Evicted (user_message (str ''hi'')),
       Evicted (user_message (str ''yo'')),
       RemoteCall [system_message (str ''s''), user_message (str ''ok'')],
       Appended (assistant_message (str ''hello'')),
       Saved [system_message (str ''s''), user_message (str ''ok''), assistant_message (str ''hello'')]],
      Returned (str ''hello''),
      busy_handler\<lparr>messages := [system_message (str ''s''), user_message (str ''ok''),
                                  assistant_message (str ''hello'')],
                    session_changed := False,
                    session_file := Some [system_message (str ''s''), user_message (str ''ok''),
                                          assistant_message (str ''hello'')]\<rparr>)"
proof -
  have l: "rate_limiter roomy_handler = full_bucket" by (simp add: roomy_handler_def)
  have a: "acquire 984 [0] full_bucket =
     \<lparr>effects = [TokenAcquired 4], result = Returned (),
      bucket = \<lparr>max_calls = 5, period = 60, tokens = 4, last_refill = 0\<rparr>,
      frames = 1, clock_rest = []\<rparr>"
    using acquire_full [of 983] by simp
  show ?thesis
    by (simp add: send_message_def strip_ok l a busy_handler_start manage_token_limit_busy
          call_openai_api_answering strip_hello save_session_def Let_def
          del: acquire.simps)
qed

text \<open>The same message when the remote service turns the request down: nothing is saved.\<close>

lemma send_message_rejected_run:
  "send_message demo_encode 984 [0] rejecting_remote True roomy_handler (str ''ok'') =
     ([TokenAcquired 4,
       Appended (user_message (str ''ok'')),
       Evicted (user_message (str ''hi'')),
       Evicted (user_message (str ''yo'')),
       RemoteCall [system_message (str ''s''), user_message (str ''ok'')]],
      Returned authentication_error_text,
      busy_handler\<lparr>messages := [system_message (str ''s''), user_message (str ''ok'')]\<rparr>)"
proof -
  have l: "rate_limiter roomy_handler = full_bucket" by (simp add: roomy_handler_def)
  have a: "acquire 984 [0] full_bucket =
     \<lparr>effects = [TokenAcquired 4], result = Returned (),
      bucket = \<lparr>max_calls = 5, period = 60, tokens = 4, last_refill = 0\<rparr>,
      frames = 1, clock_rest = []\<rparr>"
    using acquire_full [of 983] by simp
  show ?thesis
    by (simp add: send_message_def strip_ok l a busy_handler_start manage_token_limit_busy
          call_openai_api_rejecting error_reply_def Let_def
          del: acquire.simps)
qed

text \<open>
  C2, as stated: \<open>send_message\<close> appends the user message, then trims the session,
  then waits on \<open>acquire\<close>, then calls the remote service. On a full bucket and a
  session that needs trimming the token is taken first, before the append and the two
  evictions.
\<close>

theorem send_message_acquires_first:
  "fst (send_message demo_encode 984 [0] answering_remote True roomy_handler (str ''ok'')) =
     [TokenAcquired 4,
      Appended (user_message (str ''ok'')),
      Evicted (user_message (str ''hi'')),
      Evicted (user_message (str ''yo'')),
      RemoteCall [system_message (str ''s''), user_message (str ''ok'')],
      Appended (assistant_message (str ''hello'')),
      Saved [system_message (str ''s''), user_message (str ''ok''), assistant_message (str ''hello'')]]"
  by (simp add: send_message_busy_run)

text \<open>
  C2, amended: on an input that is not blank \<open>send_message\<close> performs its steps in
  this order: it waits on \<open>acquire\<close>, appends the user message, trims the session,
  invokes the remote call with its retries, and on success appends the assistant's
  reply and saves the session. In full, with \<open>a\<close> the call of \<open>acquire\<close>, \<open>trimmed\<close>
  the run of \<open>manage_token_limit\<close> on the session with the user message appended, and
  \<open>n\<close> the number of requests in the trace:
  \<^item> the steps of the trace are in the order above, those of the rate limiter are
    the effects of \<open>a\<close>, and the handler keeps the bucket as \<open>a\<close> left it;
  \<^item> when \<open>acquire\<close> does not return, nothing else happens and no text is returned;
  \<^item> when it returns, a token was taken, the one append of the second step is that
    of the user message, the evictions are those of \<open>trimmed\<close>, and the \<open>n\<close> requests,
    between 1 and 5, all carry the session as \<open>trimmed\<close> left it; the attempts before
    the \<open>n\<close>-th raised errors that are retried;
  \<^item> the \<open>n\<close>-th attempt decides: on a response with a choice the stripped text is
    returned and appended as the assistant's reply, and the session is saved (when
    the file can be written); on any other response, and on an error (which, when of
    a retried class, is that of the fifth attempt), nothing is appended and nothing
    saved.
\<close>

theorem send_message_order:
  assumes nb: "strip user_input \<noteq> []"
    and run: "send_message enc room clock remote disk_ok h user_input = (evs, out, h')"
    and a: "a = acquire room clock (rate_limiter h)"
    and t: "trimmed = manage_token_limit enc
              (h\<lparr>rate_limiter := bucket a, messages := messages h @ [user_message user_input],
                 session_changed := True\<rparr>)"
    and n: "n = length (requests evs)"
  shows "sorted (map phase evs) \<and>
    filter (\<lambda>e. phase e = 0) evs = effects a \<and> rate_limiter h' = bucket a \<and>
    (result a \<noteq> Returned () \<longrightarrow>
       evs = effects a \<and> (\<forall>reply. out \<noteq> Returned reply) \<and>
       messages h' = messages h \<and> session_file h' = session_file h) \<and>
    (result a = Returned () \<longrightarrow>
       (\<exists>k. TokenAcquired k \<in> set evs) \<and>
       filter (\<lambda>e. phase e = 1) evs = [Appended (user_message user_input)] \<and>
       filter (\<lambda>e. phase e = 2) evs = fst trimmed \<and>
       requests evs = replicate n (messages (snd trimmed)) \<and> 1 \<le> n \<and> n \<le> 5 \<and>
       (\<forall>j. 1 \<le> j \<and> j < n \<longrightarrow>
          (\<exists>c msg. remote (messages (snd trimmed)) j = Err c msg \<and> retry_if_exception_type c)) \<and>
       (case remote (messages (snd trimmed)) n of
          Ok (Some (content # choices)) \<Rightarrow>
            out = Returned (strip content) \<and>
            filter (\<lambda>e. 4 \<le> phase e) evs =
              Appended (assistant_message (strip content))
                # (if disk_ok then [Saved (messages h')] else []) \<and>
            messages h' = messages (snd trimmed) @ [assistant_message (strip content)]
        | Ok _ \<Rightarrow>
            out = Returned no_response_text \<and> filter (\<lambda>e. 4 \<le> phase e) evs = [] \<and>
            messages h' = messages (snd trimmed) \<and> session_file h' = session_file h
        | Err c msg \<Rightarrow>
            out = Returned (error_reply c msg) \<and> filter (\<lambda>e. 4 \<le> phase e) evs = [] \<and>
            messages h' = messages (snd trimmed) \<and> session_file h' = session_file h \<and>
            (retry_if_exception_type c \<longrightarrow> n = 5)))"
proof -
  define h1 where "h1 = h\<lparr>rate_limiter := bucket a,
      messages := messages h @ [user_message user_input], session_changed := True\<rparr>"
  define evs2 where "evs2 = fst trimmed"
  define h2 where "h2 = snd trimmed"
  define evs3 where "evs3 = fst (call_openai_api remote (messages h2))"
  define r where "r = snd (call_openai_api remote (messages h2))"
  have m: "manage_token_limit enc h1 = (evs2, h2)"
    by (simp add: evs2_def h2_def t h1_def)
  have c: "call_openai_api remote (messages h2) = (evs3, r)"
    by (simp add: evs3_def r_def)
  have p0: "list_all (\<lambda>e. phase e = 0) (effects a)"
    unfolding a by (rule acquire_phase)
  have p2: "list_all (\<lambda>e. phase e = 2) evs2"
    using manage_token_limit_phase [of enc h1] by (simp add: m)
  have p3: "list_all (\<lambda>e. phase e = 3) evs3"
    unfolding evs3_def by (rule call_openai_api_phase)
  have f2: "session_file h2 = session_file h"
  proof -
    have "session_file (snd (manage_token_limit enc h1)) = session_file h1"
      using manage_token_limit_config [of enc h1] by simp
    then have "session_file h2 = session_file h1" by (simp only: m snd_conv)
    then show ?thesis by (simp add: h1_def)
  qed
  have l2: "rate_limiter h2 = bucket a"
  proof -
    have "rate_limiter (snd (manage_token_limit enc h1)) = rate_limiter h1"
      using manage_token_limit_config [of enc h1] by simp
    then have "rate_limiter h2 = rate_limiter h1" by (simp only: m snd_conv)
    then show ?thesis by (simp add: h1_def)
  qed
  from call_openai_api_attempts [of remote "messages h2"] obtain d where d:
    "requests evs3 = replicate (Suc d) (messages h2)"
    "r = remote (messages h2) (Suc d)"
    "Suc d \<le> 5"
    "\<forall>j. 1 \<le> j \<and> j < Suc d \<longrightarrow>
        (\<exists>c msg. remote (messages h2) j = Err c msg \<and> retry_if_exception_type c)"
    "\<forall>c msg. remote (messages h2) (Suc d) = Err c msg \<and> retry_if_exception_type c
        \<longrightarrow> Suc d = 5"
    unfolding evs3_def r_def by blast
  have sorted0: "sorted (map phase (effects a))"
    by (rule same_phase_sorted [OF p0])
  have filter0: "filter (\<lambda>e. phase e = 0) (effects a) = effects a"
    by (rule filter_all [OF p0]) simp
  show ?thesis
  proof (cases "result a = Returned ()")
    case False
    then have "result a = Blocked \<or> (\<exists>c. result a = Raised c)"
      by (cases "result a") auto
    with nb run have "evs = effects a \<and> (\<forall>reply. out \<noteq> Returned reply) \<and>
        h' = h\<lparr>rate_limiter := bucket a\<rparr>"
      by (auto simp: send_message_def a [symmetric])
    with False sorted0 filter0 show ?thesis by simp
  next
    case True
    then have ret: "result (acquire room clock (rate_limiter h)) = Returned ()"
      by (simp add: a)
    from acquire_returned [OF ret] obtain k where k: "TokenAcquired k \<in> set (effects a)"
      unfolding a by blast
    let ?u = "Appended (user_message user_input)"
    have u: "phase ?u = 1" by simp
    show ?thesis
    proof (cases "\<exists>content choices. r = Ok (Some (content # choices))")
      case ok: True
      then obtain content choices where ok: "r = Ok (Some (content # choices))" by blast
      define h3 where "h3 = h2\<lparr>messages := messages h2 @ [assistant_message (strip content)],
                               session_changed := True\<rparr>"
      define evs4 where "evs4 = fst (save_session disk_ok h3)"
      let ?T = "Appended (assistant_message (strip content)) # evs4"
      have ch: "session_changed h3" by (simp add: h3_def)
      from save_session_changed [OF ch, of disk_ok]
      have e4: "evs4 = (if disk_ok then [Saved (messages h3)] else [])"
        and m4: "messages (snd (save_session disk_ok h3)) = messages h3"
        by (simp_all add: evs4_def)
      from nb run True m c ok
      have res: "evs = effects a @ [?u] @ evs2 @ evs3 @ ?T"
        "out = Returned (strip content)" "h' = snd (save_session disk_ok h3)"
        by (auto simp: send_message_def a [symmetric] h1_def [symmetric]
              h3_def [symmetric] evs4_def Let_def split: prod.splits)
      have mh: "messages h' = messages h2 @ [assistant_message (strip content)]"
        by (simp only: res(3) m4) (simp add: h3_def)
      have T: "list_all (\<lambda>e. 4 \<le> phase e) ?T" and sT: "sorted (map phase ?T)"
        by (simp_all add: e4)
      note shape = trace_shape [OF p0 u p2 p3 T sT]
      have n': "n = Suc d" by (simp only: n res(1) shape(6) d(1)) simp
      have tail: "filter (\<lambda>e. 4 \<le> phase e) evs =
          Appended (assistant_message (strip content))
            # (if disk_ok then [Saved (messages h')] else [])"
        by (simp only: res(1) shape(5)) (simp add: e4 mh h3_def)
      have last: "remote (messages h2) n = Ok (Some (content # choices))"
        using d(2) ok n' by simp
      from k have tok: "\<exists>k. TokenAcquired k \<in> set evs" by (auto simp: res(1))
      have req: "requests evs = replicate n (messages h2)"
        by (simp only: res(1) shape(6) d(1) n')
      have early: "\<forall>j. 1 \<le> j \<and> j < n \<longrightarrow>
          (\<exists>c msg. remote (messages h2) j = Err c msg \<and> retry_if_exception_type c)"
        using d(4) n' by simp
      have bounds: "1 \<le> n \<and> n \<le> 5" using d(3) n' by simp
      have s: "sorted (map phase evs)" by (simp only: res(1) shape(1))
      have f0: "filter (\<lambda>e. phase e = 0) evs = effects a" by (simp only: res(1) shape(2))
      have f1: "filter (\<lambda>e. phase e = 1) evs = [?u]" by (simp only: res(1) shape(3))
      have f2': "filter (\<lambda>e. phase e = 2) evs = evs2" by (simp only: res(1) shape(4))
      have l: "rate_limiter h' = bucket a"
        by (simp only: res(3)) (simp add: save_session_def h3_def l2)
      from True s f0 l tok f1 f2' req bounds early last res(2) tail mh show ?thesis
        by (simp add: evs2_def [symmetric] h2_def [symmetric])
    next
      case no: False
      have T: "list_all (\<lambda>e. 4 \<le> phase e) []" and sT: "sorted (map phase [])"
        by simp_all
      note shape = trace_shape [OF p0 u p2 p3 T sT]
      from nb run True m c no
      have res: "evs = effects a @ [?u] @ evs2 @ evs3 @ []" "h' = h2"
        by (auto simp: send_message_def a [symmetric] h1_def [symmetric] Let_def
              split: api_result.splits option.splits list.splits)
      from nb run True m c no
      have out: "out = (case r of Ok _ \<Rightarrow> Returned no_response_text
                         | Err c msg \<Rightarrow> Returned (error_reply c msg))"
        by (auto simp: send_message_def a [symmetric] h1_def [symmetric] Let_def
              split: api_result.splits option.splits list.splits)
      have n': "n = Suc d" by (simp only: n res(1) shape(6) d(1)) simp
      have last: "remote (messages h2) n = r" using d(2) n' by simp
      from k have tok: "\<exists>k. TokenAcquired k \<in> set evs" by (auto simp: res(1))
      have req: "requests evs = replicate n (messages h2)"
        by (simp only: res(1) shape(6) d(1) n')
      have early: "\<forall>j. 1 \<le> j \<and> j < n \<longrightarrow>
          (\<exists>c msg. remote (messages h2) j = Err c msg \<and> retry_if_exception_type c)"
        using d(4) n' by simp
      have bounds: "1 \<le> n \<and> n \<le> 5" using d(3) n' by simp
      have top: "\<forall>c msg. r = Err c msg \<and> retry_if_exception_type c \<longrightarrow> n = 5"
        using d(5) d(2) n' by simp
      have s: "sorted (map phase evs)" by (simp only: res(1) shape(1))
      have f0: "filter (\<lambda>e. phase e = 0) evs = effects a" by (simp only: res(1) shape(2))
      have f1: "filter (\<lambda>e. phase e = 1) evs = [?u]" by (simp only: res(1) shape(3))
      have f2': "filter (\<lambda>e. phase e = 2) evs = evs2" by (simp only: res(1) shape(4))
      have f4: "filter (\<lambda>e. 4 \<le> phase e) evs = []" by (simp only: res(1) shape(5))
      have decide: "(case remote (messages h2) n of
          Ok (Some (content # choices)) \<Rightarrow>
            out = Returned (strip content) \<and>
            filter (\<lambda>e. 4 \<le> phase e) evs =
              Appended (assistant_message (strip content))
                # (if disk_ok then [Saved (messages h')] else []) \<and>
            messages h' = messages h2 @ [assistant_message (strip content)]
        | Ok _ \<Rightarrow>
            out = Returned no_response_text \<and> filter (\<lambda>e. 4 \<le> phase e) evs = [] \<and>
            messages h' = messages h2 \<and> session_file h' = session_file h
        | Err c msg \<Rightarrow>
            out = Returned (error_reply c msg) \<and> filter (\<lambda>e. 4 \<le> phase e) evs = [] \<and>
            messages h' = messages h2 \<and> session_file h' = session_file h \<and>
            (retry_if_exception_type c \<longrightarrow> n = 5))"
        using no out f4 f2 res(2) top
        by (auto simp: last split: api_result.splits option.splits list.splits)
      have l: "rate_limiter h' = bucket a" by (simp add: res(2) l2)
      from True s f0 l tok f1 f2' req bounds early decide show ?thesis
        unfolding evs2_def h2_def by blast
    qed
  qed
qed

text \<open>
  The amended C2 on the run above: one request, with the trimmed session, answered at
  the first attempt; then the reply and the save.
\<close>

theorem send_message_order_witness:
  "strip (str ''ok'') \<noteq> [] \<and>
   map phase (fst (send_message demo_encode 984 [0] answering_remote True roomy_handler (str ''ok'')))
     = [0, 1, 2, 2, 3, 4, 5] \<and>
   sorted (map phase
     (fst (send_message demo_encode 984 [0] answering_remote True roomy_handler (str ''ok'')))) \<and>
   requests (fst (send_message demo_encode 984 [0] answering_remote True roomy_handler (str ''ok'')))
     = [[system_message (str ''s''), user_message (str ''ok'')]] \<and>
   filter (\<lambda>e. 4 \<le> phase e)
     (fst (send_message demo_encode 984 [0] answering_remote True roomy_handler (str ''ok'')))
     = [Appended (assistant_message (str ''hello'')),
        Saved [system_message (str ''s''), user_message (str ''ok''),
               assistant_message (str ''hello'')]]"
  using send_message_order [OF strip_ok send_message_busy_run refl refl refl]
  by (simp add: send_message_busy_run strip_ok)

section \<open>The rate limiter (\<open>RateLimiter\<close>)\<close>

subsection \<open>The bounds of the token count\<close>

lemma py_int_ge_1: "1 \<le> x \<Longrightarrow> 1 \<le> py_int x"
  by (simp add: py_int_def)

lemma refill_invariant:
  "0 \<le> tokens rl \<Longrightarrow> tokens rl \<le> max_calls rl \<Longrightarrow>
   0 \<le> tokens (refill current_time rl) \<and>
   tokens (refill current_time rl) \<le> max_calls rl \<and>
   max_calls (refill current_time rl) = max_calls rl"
  using py_int_ge_1 [of "refill_amount current_time rl"] by (auto simp: refill_def)

lemma acquire_invariant:
  "0 \<le> tokens rl \<Longrightarrow> tokens rl \<le> max_calls rl \<Longrightarrow>
   0 \<le> tokens (bucket (acquire room clock rl)) \<and>
   tokens (bucket (acquire room clock rl)) \<le> max_calls rl \<and>
   max_calls (bucket (acquire room clock rl)) = max_calls rl \<and>
   list_all (tokens_within (max_calls rl)) (effects (acquire room clock rl))"
proof (induction room clock rl rule: acquire.induct)
  case (1 clock rl)
  then show ?case by simp
next
  case (2 room rl)
  then show ?case by simp
next
  case (3 room current_time clock rl)
  let ?rl1 = "refill current_time rl"
  from refill_invariant [OF "3.prems", of current_time]
  have inv1: "0 \<le> tokens ?rl1" "tokens ?rl1 \<le> max_calls rl" "max_calls ?rl1 = max_calls rl"
    by simp_all
  show ?case
  proof (cases "period rl = 0")
    case True
    with "3.prems" show ?thesis by simp
  next
    case nz: False
    show ?thesis
    proof (cases "1 \<le> tokens ?rl1 \<or> max_calls ?rl1 = 0
                  \<or> period ?rl1 / real_of_int (max_calls ?rl1) < 0")
      case True
      with nz inv1 "3.prems" show ?thesis
        by (auto simp: Let_def)
    next
      case False
      then have b1: "\<not> 1 \<le> tokens ?rl1" and b2: "max_calls ?rl1 \<noteq> 0"
        and b3: "\<not> period ?rl1 / real_of_int (max_calls ?rl1) < 0"
        by auto
      from inv1 have pre: "0 \<le> tokens ?rl1" "tokens ?rl1 \<le> max_calls ?rl1" by simp_all
      from "3.IH" [OF nz refl refl b1 b2 refl b3 pre] inv1(3)
      have rec: "0 \<le> tokens (bucket (acquire room clock ?rl1)) \<and>
          tokens (bucket (acquire room clock ?rl1)) \<le> max_calls rl \<and>
          max_calls (bucket (acquire room clock ?rl1)) = max_calls rl \<and>
          list_all (tokens_within (max_calls rl)) (effects (acquire room clock ?rl1))"
        by simp
      with nz b1 b2 b3 inv1 show ?thesis
        by (simp add: Let_def)
    qed
  qed
qed

lemma acquire_calls_invariant:
  "0 \<le> tokens rl \<Longrightarrow> tokens rl \<le> max_calls rl \<Longrightarrow>
   list_all (tokens_within (max_calls rl)) (fst (acquire_calls n room clock rl)) \<and>
   0 \<le> tokens (snd (acquire_calls n room clock rl)) \<and>
   tokens (snd (acquire_calls n room clock rl)) \<le> max_calls rl \<and>
   max_calls (snd (acquire_calls n room clock rl)) = max_calls rl"
proof (induction n arbitrary: clock rl)
  case 0
  then show ?case by simp
next
  case (Suc n)
  let ?r = "acquire room clock rl"
  from acquire_invariant [OF Suc.prems, of room clock]
  have a: "0 \<le> tokens (bucket ?r)" "tokens (bucket ?r) \<le> max_calls (bucket ?r)"
    "max_calls (bucket ?r) = max_calls rl"
    "list_all (tokens_within (max_calls rl)) (effects ?r)" by simp_all
  obtain evs rl' where rest: "acquire_calls n room (clock_rest ?r) (bucket ?r) = (evs, rl')"
    by (cases "acquire_calls n room (clock_rest ?r) (bucket ?r)")
  from Suc.IH [OF a(1) a(2), of "clock_rest ?r"] a(3) a(4) rest show ?case
    by (simp add: Let_def)
qed

text \<open>
  C4, as stated: on every \<open>RateLimiter\<close> the token count is between 0 and the capacity
  at every observation point, the first being after construction. The constructor
  takes any integer: built with \<open>max_calls = -1\<close> the limiter starts with \<open>-1\<close> tokens.
\<close>

theorem RateLimiter_negative_tokens:
  "RateLimiter (- 1) 60 0 = Inr \<lparr>max_calls = - 1, period = 60, tokens = - 1, last_refill = 0\<rparr> \<and>
   \<not> 0 \<le> tokens \<lparr>max_calls = - 1, period = 60, tokens = - 1, last_refill = 0\<rparr>"
  by (simp add: RateLimiter_def)

text \<open>
  C4, amended: for a \<open>RateLimiter\<close> built with a capacity \<open>max_calls \<ge> 0\<close> and every
  sequence of \<open>acquire\<close> calls, whatever the clock shows and whatever room the stack
  has, the token count is between 0 and the capacity after construction, after every
  refill, after every decrement and at the end.
\<close>

theorem acquire_calls_tokens_bounded:
  assumes "0 \<le> capacity" and "RateLimiter capacity period' now = Inr rl"
  shows "(0 \<le> tokens rl \<and> tokens rl \<le> capacity) \<and>
    list_all (tokens_within capacity) (fst (acquire_calls n room clock rl)) \<and>
    (0 \<le> tokens (snd (acquire_calls n room clock rl)) \<and>
     tokens (snd (acquire_calls n room clock rl)) \<le> capacity)"
proof -
  from assms have rl: "tokens rl = capacity" "max_calls rl = capacity"
    by (auto simp: RateLimiter_def)
  with assms(1) have "0 \<le> tokens rl" "tokens rl \<le> max_calls rl" by simp_all
  from acquire_calls_invariant [OF this, of n room clock] rl assms(1) show ?thesis by simp
qed

text \<open>
  The amended C4 on the scenario of capacity 5 and period 60: five calls at time 0
  take the five tokens, the sixth sleeps 12 seconds and takes the token refilled then.
\<close>

theorem acquire_calls_tokens_bounded_witness:
  "RateLimiter 5 60 0 = Inr full_bucket \<and>
   fst (acquire_calls 6 984 [0, 0, 0, 0, 0, 0, 12] full_bucket) =
     [TokenAcquired 4, TokenAcquired 3, TokenAcquired 2, TokenAcquired 1, TokenAcquired 0,
      Slept 12, Refilled 1, TokenAcquired 0] \<and>
   list_all (tokens_within 5) (fst (acquire_calls 6 984 [0, 0, 0, 0, 0, 0, 12] full_bucket)) \<and>
   0 \<le> tokens (snd (acquire_calls 6 984 [0, 0, 0, 0, 0, 0, 12] full_bucket)) \<and>
   tokens (snd (acquire_calls 6 984 [0, 0, 0, 0, 0, 0, 12] full_bucket)) \<le> 5"
proof -
  have c: "(0::int) \<le> 5" by simp
  have b: "RateLimiter 5 60 0 = Inr full_bucket"
    by (simp add: RateLimiter_def full_bucket_def)
  have run: "fst (acquire_calls 6 984 [0, 0, 0, 0, 0, 0, 12] full_bucket) =
     [TokenAcquired 4, TokenAcquired 3, TokenAcquired 2, TokenAcquired 1, TokenAcquired 0,
      Slept 12, Refilled 1, TokenAcquired 0]"
    by (simp add: eval_nat_numeral Let_def full_bucket_def py_int_def refill_def refill_amount_def)
  from acquire_calls_tokens_bounded [OF c b, of 6 984 "[0, 0, 0, 0, 0, 0, 12]"] b run
  show ?thesis by simp
qed

subsection \<open>The depth of the retry\<close>






subsection \<open>A capacity of zero\<close>

text \<open>
  C6, as stated: constructing a \<open>RateLimiter\<close> with \<open>max_calls = 0\<close> fails. The
  constructor returns a limiter.
\<close>

theorem RateLimiter_zero_accepted:
  "RateLimiter 0 60 0 = Inr \<lparr>max_calls = 0, period = 60, tokens = 0, last_refill = 0\<rparr>"
  by (simp add: RateLimiter_def)

text \<open>
  C6, amended: constructing a \<open>RateLimiter\<close> with \<open>max_calls = 0\<close> is accepted, for the
  constructor checks nothing; the limiter has no token, and every call of \<open>acquire\<close>
  on it that reads the clock raises \<open>ZeroDivisionError\<close>.
\<close>

theorem RateLimiter_zero:
  "RateLimiter 0 period' now =
     Inr \<lparr>max_calls = 0, period = period', tokens = 0, last_refill = now\<rparr> \<and>
   result (acquire (Suc room) (current_time # clock)
             \<lparr>max_calls = 0, period = period', tokens = 0, last_refill = now\<rparr>)
     = Raised ZeroDivisionError"
  by (simp add: RateLimiter_def Let_def refill_def refill_amount_def)

end
